theory Spec2Isabelle
  imports Main "HOL-Library.Word" "HOL-Library.Sublist"
begin

section \<open>Machine types\<close>

text \<open>
  The C++ \<open>int\<close> of the source is a 32-bit word read by \<open>sint\<close>; \<open>uint32_t\<close> is a
  32-bit word read by \<open>unat\<close>; \<open>size_t\<close> and addresses are 64-bit words. Arithmetic on
  words wraps around. Signed overflow has no defined result in C++; whatever the result
  is, it is again a value of the 32-bit type, which is all the development relies on
  where a result leaves the range.
\<close>

type_synonym cint = "32 word"
type_synonym u32 = "32 word"
type_synonym size_t = "64 word"

section \<open>The shared-memory surface (shm.cpp)\<close>

text \<open>
  Calls that leave the process (the C library and libwayland-client) are recorded in
  the order in which they are made, with the arguments that vary: the flags and the mode
  of \<open>shm_open\<close>, the protection of \<open>mmap\<close> and the pixel format of a buffer are
  constants of the source. Compositor objects (\<open>wl_shm*\<close>, \<open>wl_shm_pool*\<close>,
  \<open>wl_buffer*\<close>) are handles; \<open>nullptr\<close> is \<open>None\<close>.
\<close>

datatype effect =
    Shm_open string
  | Ftruncate cint int
  | Mmap size_t cint
  | Shm_unlink string
  | Close cint
  | Wl_shm_create_pool nat cint cint
  | Wl_shm_pool_create_buffer nat cint cint cint cint
  | Wl_buffer_destroy nat
  | Wl_shm_pool_destroy nat
  | Wl_shm_destroy nat

text \<open>
  The world outside the process: the calls made so far, and the answers the next calls
  will get (the descriptor \<open>shm_open\<close> returns, the address \<open>mmap\<close> returns, the next
  compositor handle). The source never inspects these answers, so they are arbitrary.
\<close>

record world =
  effects :: "effect list"
  next_fd :: cint
  next_addr :: size_t
  next_proxy :: nat

definition emit :: "effect \<Rightarrow> world \<Rightarrow> world" where
  "emit e w = w\<lparr>effects := effects w @ [e]\<rparr>"

definition sys_shm_open :: "string \<Rightarrow> world \<Rightarrow> cint \<times> world" where
  "sys_shm_open path w = (next_fd w, emit (Shm_open path) w)"

definition sys_mmap :: "size_t \<Rightarrow> cint \<Rightarrow> world \<Rightarrow> size_t \<times> world" where
  "sys_mmap n d w = (next_addr w, emit (Mmap n d) w)"

definition new_proxy :: "effect \<Rightarrow> world \<Rightarrow> nat \<times> world" where
  "new_proxy e w = (next_proxy w, emit e (w\<lparr>next_proxy := Suc (next_proxy w)\<rparr>))"

text \<open>
  Modelled from the spec: the class declaration of \<open>SwayShm\<close> (shm.hpp) is not among
  the sources. The members are those the member functions use, in the order of the
  constructor's initialiser list; the handles start as \<open>nullptr\<close>, which the tests of
  the destructor rely on.
\<close>

record sway_shm =
  shm :: "nat option"
  width :: cint
  height :: cint
  stride :: cint
  pool_size :: cint
  shm_path :: string
  fd :: cint
  pool_data :: size_t
  pool :: "nat option"
  buffers :: "nat list"

text \<open>
  \<open>create_shm_file\<close>: \<open>shm_open\<close>, \<open>ftruncate(fd, pool_size)\<close> (the length is an
  \<open>off_t\<close>, so the \<open>int\<close> keeps its value) and \<open>mmap(nullptr, pool_size, ...)\<close> (the
  length is a \<open>size_t\<close>, so the \<open>int\<close> is sign-extended to 64 bits).
\<close>

definition create_shm_file :: "sway_shm \<Rightarrow> world \<Rightarrow> sway_shm \<times> world" where
  "create_shm_file s w =
     (let (d, w1) = sys_shm_open (shm_path s) w;
          w2 = emit (Ftruncate d (sint (pool_size s))) w1;
          (p, w3) = sys_mmap (scast (pool_size s)) d w2
      in (s\<lparr>fd := d, pool_data := p\<rparr>, w3))"

text \<open>
  The constructor. \<open>uuid\<close> is the result of \<open>util::generate_uuid_v4()\<close>, whose code is
  not among the sources.
\<close>

definition SwayShm :: "cint \<Rightarrow> cint \<Rightarrow> string \<Rightarrow> world \<Rightarrow> sway_shm \<times> world" where
  "SwayShm w h uuid wo =
     create_shm_file
       \<lparr>shm = None, width = w, height = h, stride = w * 4, pool_size = h * (w * 4) * 2,
        shm_path = CHR ''/'' # uuid, fd = 0, pool_data = 0, pool = None, buffers = []\<rparr> wo"

definition allocate_pool_buffers :: "sway_shm \<Rightarrow> world \<Rightarrow> sway_shm \<times> world" where
  "allocate_pool_buffers s w =
     (case shm s of
        None \<Rightarrow> (s, w)
      | Some m \<Rightarrow>
          (let (p, w1) = new_proxy (Wl_shm_create_pool m (fd s) (pool_size s)) w;
               (b0, w2) = new_proxy
                  (Wl_shm_pool_create_buffer p 0 (width s) (height s) (stride s)) w1;
               (b1, w3) = new_proxy
                  (Wl_shm_pool_create_buffer p (height s * stride s)
                     (width s) (height s) (stride s)) w2
           in (s\<lparr>pool := Some p, buffers := buffers s @ [b0, b1]\<rparr>, w3)))"

text \<open>
  \<open>get_data(uint32_t offset)\<close>: \<open>nullptr\<close> above 1, otherwise the address of
  \<open>pool_data[offset]\<close>, an element of a \<open>uint8_t\<close> array.
\<close>

definition get_data :: "u32 \<Rightarrow> sway_shm \<Rightarrow> size_t option" where
  "get_data offset s = (if offset > 1 then None else Some (pool_data s + ucast offset))"

text \<open>The destructor.\<close>

definition destroy :: "sway_shm \<Rightarrow> world \<Rightarrow> world" where
  "destroy s w =
     (let w1 = emit (Shm_unlink (shm_path s)) w;
          w2 = emit (Close (fd s)) w1;
          w3 = fold (\<lambda>buf. emit (Wl_buffer_destroy buf)) (buffers s) w2;
          w4 = (case pool s of None \<Rightarrow> w3 | Some p \<Rightarrow> emit (Wl_shm_pool_destroy p) w3)
      in (case shm s of None \<Rightarrow> w4 | Some m \<Rightarrow> emit (Wl_shm_destroy m) w4))"

section \<open>Exceptions and results\<close>

text \<open>
  The exceptions that can leave the member functions of \<open>SwaySocket\<close>:
  \<open>std::runtime_error\<close> with its message (thrown by the constructor), the JSON
  library's \<open>type_error\<close> with its numeric id (302: a value does not have the type it is
  converted to; 305: \<open>operator[]\<close> with a string key on a value that is not an object),
  a parse error of \<open>njson::parse\<close>, an I/O failure of the socket, and the failed
  assertion of the constant \<open>operator[]\<close> on a key that is absent.
\<close>

datatype error =
    runtime_error string
  | type_error nat
  | parse_error
  | system_error
  | assertion_failure

text \<open>
  A call that works on a state \<open>'s\<close> returns its result or the exception it threw,
  together with the state it leaves behind.
\<close>

type_synonym ('a, 's) io = "'s \<Rightarrow> (error + 'a) \<times> 's"

definition io_return :: "'a \<Rightarrow> ('a, 's) io" where
  "io_return x s = (Inr x, s)"

definition io_lift :: "error + 'a \<Rightarrow> ('a, 's) io" where
  "io_lift r s = (r, s)"

definition io_bind :: "('a, 's) io \<Rightarrow> ('a \<Rightarrow> ('b, 's) io) \<Rightarrow> ('b, 's) io" where
  "io_bind m f s = (case m s of (Inl e, s') \<Rightarrow> (Inl e, s') | (Inr x, s') \<Rightarrow> f x s')"

definition try_bind :: "error + 'a \<Rightarrow> ('a \<Rightarrow> error + 'b) \<Rightarrow> error + 'b" where
  "try_bind r f = (case r of Inl e \<Rightarrow> Inl e | Inr x \<Rightarrow> f x)"

section \<open>JSON documents (nlohmann::json, as far as sway.cpp uses it)\<close>

text \<open>
  Objects are association lists; the library keeps the keys distinct and in order.
  Numbers are integers: the rectangles of the window tree hold no fractions.
\<close>

datatype njson =
    JNull
  | JBool bool
  | JNum int
  | JStr string
  | JArr "njson list"
  | JObj "(string \<times> njson) list"

text \<open>
  \<open>operator[]\<close> with a string key on a value that may be modified: \<open>null\<close> turns into
  an object, an absent key is added with the value \<open>null\<close>, and any other kind of value
  throws. The function gives the element referred to. The modified document is not
  modelled: \<open>current_window\<close> applies the operator to its own copy of a node and
  either throws right away or never reads the added entry.
\<close>

fun subscript :: "njson \<Rightarrow> string \<Rightarrow> error + njson" where
  "subscript JNull k = Inr JNull"
| "subscript (JObj kvs) k = Inr (case map_of kvs k of None \<Rightarrow> JNull | Some v \<Rightarrow> v)"
| "subscript _ k = Inl (type_error 305)"

text \<open>\<open>operator[]\<close> with a string key on a constant value: only objects, only present keys.\<close>

fun subscript_const :: "njson \<Rightarrow> string \<Rightarrow> error + njson" where
  "subscript_const (JObj kvs) k =
     (case map_of kvs k of None \<Rightarrow> Inl assertion_failure | Some v \<Rightarrow> Inr v)"
| "subscript_const _ k = Inl (type_error 305)"

text \<open>The implicit conversions to \<open>bool\<close> and to \<open>int\<close>.\<close>

fun to_bool :: "njson \<Rightarrow> error + bool" where
  "to_bool (JBool b) = Inr b"
| "to_bool _ = Inl (type_error 302)"

fun to_int :: "njson \<Rightarrow> error + cint" where
  "to_int (JNum n) = Inr (word_of_int n)"
| "to_int (JBool b) = Inr (if b then 1 else 0)"
| "to_int _ = Inl (type_error 302)"

text \<open>
  The values a range-based \<open>for\<close> visits: the elements of an array, the values of an
  object, nothing for \<open>null\<close>, and the value itself for any other kind.
\<close>

fun elems :: "njson \<Rightarrow> njson list" where
  "elems JNull = []"
| "elems (JArr xs) = xs"
| "elems (JObj kvs) = map snd kvs"
| "elems j = [j]"

section \<open>The socket\<close>

text \<open>
  Modelled from the spec: \<open>UnixSocket\<close> (util/socket.hpp) is not among the sources. It
  is a blocking byte stream to the compositor. The model records every call of
  \<open>write\<close> and \<open>read\<close> in order, holds the bytes the peer
  will deliver (\<open>inbox\<close>) and the number of further calls the connection survives
  (\<open>alive\<close>): a call on a dead connection, or a read of more bytes than the peer
  delivers, is an I/O failure.
\<close>

datatype sock_call = Write string | Read nat

record unix_socket =
  calls :: "sock_call list"
  inbox :: string
  alive :: nat

definition sock_write :: "string \<Rightarrow> (unit, unix_socket) io" where
  "sock_write bs s =
     (let s' = s\<lparr>calls := calls s @ [Write bs]\<rparr>
      in if alive s = 0 then (Inl system_error, s')
         else (Inr (), s'\<lparr>alive := alive s - 1\<rparr>))"

definition sock_read :: "nat \<Rightarrow> (string, unix_socket) io" where
  "sock_read n s =
     (let s' = s\<lparr>calls := calls s @ [Read n]\<rparr>
      in if alive s = 0 \<or> length (inbox s) < n then (Inl system_error, s')
         else (Inr (take n (inbox s)), s'\<lparr>alive := alive s - 1, inbox := drop n (inbox s)\<rparr>))"

section \<open>The Sway backend (sway.cpp)\<close>

subsection \<open>Frames\<close>

definition ipc_magic :: string where
  "ipc_magic = ''i3-ipc''"

definition ipc_header_size :: nat where
  "ipc_header_size = length ipc_magic + 8"

text \<open>
  Modelled from the spec: the enumeration \<open>ipc_message_type\<close> (sway.hpp) is not among
  the sources. These are the two message types the backend sends, a command to run and
  the request for the tree, with their codes in the i3 IPC protocol.
\<close>

datatype ipc_message_type = IPC_COMMAND | IPC_GET_TREE

fun type_code :: "ipc_message_type \<Rightarrow> u32" where
  "type_code IPC_COMMAND = 0"
| "type_code IPC_GET_TREE = 4"

record ipc_header =
  magic :: string
  len :: u32
  type :: u32

text \<open>
  The bytes of the packed structure: the magic, then \<open>len\<close> and \<open>type\<close> in the byte
  order of the machine, taken to be little-endian.
\<close>

definition le32 :: "u32 \<Rightarrow> string" where
  "le32 v = map (\<lambda>k. char_of (unat v div 256 ^ k)) [0, 1, 2, 3]"

definition of_le32 :: "string \<Rightarrow> u32" where
  "of_le32 bs = of_nat (foldr (\<lambda>c n. of_char c + 256 * n) bs 0)"

definition header_bytes :: "ipc_header \<Rightarrow> string" where
  "header_bytes h = magic h @ le32 (len h) @ le32 (type h)"

definition header_of_bytes :: "string \<Rightarrow> ipc_header" where
  "header_of_bytes bs =
     \<lparr>magic = take 6 bs, len = of_le32 (take 4 (drop 6 bs)), type = of_le32 (take 4 (drop 10 bs))\<rparr>"

subsection \<open>The constructor\<close>

text \<open>
  \<open>getenv\<close> is the environment (\<open>os::getenv\<close> returns an optional string) and
  \<open>connect\<close> is the constructor of \<open>UnixSocket\<close>, which works on the world outside
  the process. Logging is left out.
\<close>

record sway_socket =
  socket_path :: string
  socket :: unix_socket

definition SwaySocket ::
  "(string \<rightharpoonup> string) \<Rightarrow> (string \<Rightarrow> (unix_socket, 'w) io) \<Rightarrow> (sway_socket, 'w) io" where
  "SwaySocket getenv connect =
     (case getenv ''SWAYSOCK'' of
        None \<Rightarrow> io_lift (Inl (runtime_error ''SWAY NOT SUPPORTED''))
      | Some sway_sock \<Rightarrow>
          io_bind (connect sway_sock)
            (\<lambda>sock. io_return \<lparr>socket_path = sway_sock, socket = sock\<rparr>))"

subsection \<open>One round trip\<close>

text \<open>
  \<open>ipc_message\<close>. \<open>header.len = payload.size()\<close> narrows a \<open>size_t\<close> to 32 bits.
  \<open>parse\<close> is \<open>njson::parse\<close>.
\<close>

definition ipc_message ::
  "(string \<Rightarrow> error + njson) \<Rightarrow> ipc_message_type \<Rightarrow> string \<Rightarrow> (njson, unix_socket) io" where
  "ipc_message parse ty payload =
     (let header = \<lparr>magic = ipc_magic, len = of_nat (length payload), type = type_code ty\<rparr>
      in io_bind (sock_write (take ipc_header_size (header_bytes header))) (\<lambda>_.
         io_bind (sock_write payload) (\<lambda>_.
         io_bind (sock_read ipc_header_size) (\<lambda>hb.
         io_bind (sock_read (unat (len (header_of_bytes hb)))) (\<lambda>buff.
         io_lift (parse buff))))))"

subsection \<open>The search for the focused window\<close>

text \<open>The stack is a list with its top at the head.\<close>

definition weight :: "njson list \<Rightarrow> nat" where
  "weight js = sum_list (map (\<lambda>j. Suc (size j)) js)"

lemma weight_simps [simp]:
  "weight [] = 0" "weight (j # js) = Suc (size j) + weight js"
  "weight (xs @ ys) = weight xs + weight ys"
  by (simp_all add: weight_def)

lemma weight_rev [simp]: "weight (rev xs) = weight xs"
  by (induction xs) simp_all

lemma weight_map_snd: "weight (map snd kvs) \<le> size_list (size_prod (\<lambda>x. 0) size) kvs"
  by (induction kvs) auto

lemma weight_size_list: "weight xs = size_list size xs"
  by (induction xs) auto

lemma weight_elems: "weight (elems j) \<le> Suc (size j)"
proof (cases j)
  case (JObj kvs)
  then show ?thesis using weight_map_snd[of kvs] by simp
qed (simp_all add: weight_size_list)

lemma size_map_of:
  "map_of kvs k = Some v \<Longrightarrow> Suc (size v) \<le> size_list (size_prod (\<lambda>x. 0) size) kvs"
  by (induction kvs) (auto split: if_splits)

lemma size_map_of2:
  "map_of kvs k = Some u \<Longrightarrow> map_of kvs k' = Some v \<Longrightarrow> k \<noteq> k' \<Longrightarrow>
     Suc (size u) + Suc (size v) \<le> size_list (size_prod (\<lambda>x. 0) size) kvs"
proof (induction kvs)
  case Nil
  then show ?case by simp
next
  case (Cons a kvs)
  then show ?case
    using size_map_of[of kvs k u] size_map_of[of kvs k' v]
    by (cases a) (auto split: if_splits)
qed

lemma weight_children:
  assumes "subscript (JObj kvs) k = Inr ns" "subscript (JObj kvs) k' = Inr fs" "k \<noteq> k'"
  shows "weight (elems fs) + weight (elems ns) \<le> size (JObj kvs)"
proof -
  consider (both) u v where "map_of kvs k = Some u" "map_of kvs k' = Some v"
    | (l) u where "map_of kvs k = Some u" "map_of kvs k' = None"
    | (r) v where "map_of kvs k = None" "map_of kvs k' = Some v"
    | (none) "map_of kvs k = None" "map_of kvs k' = None"
    by (cases "map_of kvs k"; cases "map_of kvs k'") auto
  then show ?thesis
  proof cases
    case both
    then show ?thesis
      using assms size_map_of2[of kvs k u k' v] weight_elems[of u] weight_elems[of v] by auto
  next
    case l
    then show ?thesis using assms size_map_of[of kvs k u] weight_elems[of u] by auto
  next
    case r
    then show ?thesis using assms size_map_of[of kvs k' v] weight_elems[of v] by auto
  next
    case none
    then show ?thesis using assms by auto
  qed
qed

lemma to_bool_subscript_obj:
  "subscript j k = Inr f \<Longrightarrow> to_bool f = Inr b \<Longrightarrow> \<exists>kvs. j = JObj kvs"
  by (cases j) auto

text \<open>The \<open>while\<close> loop of \<open>current_window\<close>.\<close>

function current_window_loop :: "njson list \<Rightarrow> error + njson" where
  "current_window_loop [] = Inr JNull"
| "current_window_loop (top' # nodes_st) =
     (case subscript top' ''focused'' of
        Inl e \<Rightarrow> Inl e
      | Inr f \<Rightarrow>
          (case to_bool f of
             Inl e \<Rightarrow> Inl e
           | Inr focused \<Rightarrow>
               if focused then Inr top'
               else (case subscript top' ''nodes'' of
                       Inl e \<Rightarrow> Inl e
                     | Inr ns \<Rightarrow>
                         (case subscript top' ''floating_nodes'' of
                            Inl e \<Rightarrow> Inl e
                          | Inr fs \<Rightarrow>
                              current_window_loop
                                (rev (elems fs) @ rev (elems ns) @ nodes_st)))))"
  by pat_completeness auto

termination
proof (relation "measure weight")
  show "wf (measure weight)" by simp
next
  fix top' nodes_st f focused ns fs
  assume a: "subscript top' ''focused'' = Inr f" "to_bool f = Inr focused"
    "subscript top' ''nodes'' = Inr ns" "subscript top' ''floating_nodes'' = Inr fs"
  from a(1,2) obtain kvs where t: "top' = JObj kvs"
    using to_bool_subscript_obj by blast
  have "weight (elems fs) + weight (elems ns) \<le> size top'"
    using weight_children[of kvs "''nodes''" ns "''floating_nodes''" fs] a(3,4) unfolding t
    by simp
  then show "(rev (elems fs) @ rev (elems ns) @ nodes_st, top' # nodes_st) \<in> measure weight"
    by simp
qed

text \<open>
  \<open>current_window\<close> asks for the tree with \<open>ipc_message(IPC_GET_TREE)\<close>; the payload
  is the default argument of the declaration in sway.hpp, taken to be empty.
\<close>

definition current_window :: "(string \<Rightarrow> error + njson) \<Rightarrow> (njson, unix_socket) io" where
  "current_window parse =
     io_bind (ipc_message parse IPC_GET_TREE [])
       (\<lambda>tree. io_lift (current_window_loop [tree]))"

subsection \<open>The window rectangle\<close>

text \<open>
  Modelled from the spec: \<open>struct WaylandWindow\<close> is not among the sources. It is the
  rectangle of a window, four members of type \<open>int\<close>. The initialisers are evaluated
  in the order in which they are written.
\<close>

record wayland_window =
  win_width :: cint
  win_height :: cint
  win_x :: cint
  win_y :: cint

definition window_of :: "njson \<Rightarrow> error + wayland_window" where
  "window_of window =
     try_bind (subscript_const window ''rect'') (\<lambda>rect.
     try_bind (try_bind (subscript_const rect ''width'') to_int) (\<lambda>w.
     try_bind (try_bind (subscript_const rect ''height'') to_int) (\<lambda>h.
     try_bind (try_bind (subscript_const rect ''x'') to_int) (\<lambda>x.
     try_bind (try_bind (subscript_const rect ''y'') to_int) (\<lambda>y.
     Inr \<lparr>win_width = w, win_height = h, win_x = x, win_y = y\<rparr>)))))"

definition get_window_info ::
  "(string \<Rightarrow> error + njson) \<Rightarrow> (wayland_window, unix_socket) io" where
  "get_window_info parse =
     io_bind (current_window parse) (\<lambda>window. io_lift (window_of window))"

subsection \<open>Commands\<close>

text \<open>\<open>fmt::format\<close> of an \<open>int\<close> with \<open>{}\<close>: decimal digits, a minus sign when negative.\<close>

fun dec_nat :: "nat \<Rightarrow> string" where
  "dec_nat n =
     (if n < 10 then [char_of (48 + n)] else dec_nat (n div 10) @ [char_of (48 + n mod 10)])"

declare dec_nat.simps [simp del]

definition fmt_int :: "int \<Rightarrow> string" where
  "fmt_int i = (if i < 0 then CHR ''-'' # dec_nat (nat (- i)) else dec_nat (nat i))"

text \<open>The two overloads of \<open>ipc_command\<close>: scoped by an application id, and plain.\<close>

definition ipc_command_for ::
  "(string \<Rightarrow> error + njson) \<Rightarrow> string \<Rightarrow> string \<Rightarrow> (njson, unix_socket) io" where
  \<open>ipc_command_for parse appid command =
     ipc_message parse IPC_COMMAND (''for_window [app_id="'' @ appid @ ''"] '' @ command)\<close>

definition ipc_command :: "(string \<Rightarrow> error + njson) \<Rightarrow> string \<Rightarrow> (njson, unix_socket) io" where
  "ipc_command parse command = ipc_message parse IPC_COMMAND command"

definition disable_focus :: "(string \<Rightarrow> error + njson) \<Rightarrow> string \<Rightarrow> (unit, unix_socket) io" where
  \<open>disable_focus parse appid =
     io_bind (ipc_command parse (''no_focus [app_id="'' @ appid @ ''"]'')) (\<lambda>_. io_return ())\<close>

definition enable_floating :: "(string \<Rightarrow> error + njson) \<Rightarrow> string \<Rightarrow> (unit, unix_socket) io" where
  "enable_floating parse appid =
     io_bind (ipc_command_for parse appid ''floating enable'') (\<lambda>_. io_return ())"

definition initial_setup :: "(string \<Rightarrow> error + njson) \<Rightarrow> string \<Rightarrow> (unit, unix_socket) io" where
  "initial_setup parse appid =
     io_bind (disable_focus parse appid) (\<lambda>_. enable_floating parse appid)"

definition move_window ::
  "(string \<Rightarrow> error + njson) \<Rightarrow> string \<Rightarrow> cint \<Rightarrow> cint \<Rightarrow> (unit, unix_socket) io" where
  "move_window parse appid xcoord ycoord =
     io_bind
       (ipc_command_for parse appid
          (''move absolute position '' @ fmt_int (sint xcoord) @ '' '' @ fmt_int (sint ycoord)))
       (\<lambda>_. io_return ())"

section \<open>The nodes of a window tree\<close>

text \<open>
  The children of a node are the entries of its \<open>nodes\<close> and of its
  \<open>floating_nodes\<close>; the nodes of a tree are its root and the nodes of the trees below
  it, through either kind of child.
\<close>

definition child_nodes :: "njson \<Rightarrow> njson list" where
  "child_nodes t =
     (case t of
        JObj kvs \<Rightarrow>
          elems (case map_of kvs ''nodes'' of None \<Rightarrow> JNull | Some v \<Rightarrow> v)
          @ elems (case map_of kvs ''floating_nodes'' of None \<Rightarrow> JNull | Some v \<Rightarrow> v)
      | _ \<Rightarrow> [])"

lemma weight_child_nodes: "weight (child_nodes t) \<le> size t"
proof (cases t)
  case (JObj kvs)
  have "weight (elems (case map_of kvs ''floating_nodes'' of None \<Rightarrow> JNull | Some v \<Rightarrow> v))
        + weight (elems (case map_of kvs ''nodes'' of None \<Rightarrow> JNull | Some v \<Rightarrow> v))
        \<le> size (JObj kvs)"
    by (rule weight_children[where k = "''nodes''" and k' = "''floating_nodes''"]) simp_all
  then show ?thesis
    using JObj by (simp add: child_nodes_def)
qed (simp_all add: child_nodes_def)

lemma size_less_weight: "c \<in> set cs \<Longrightarrow> size c < weight cs"
  by (induction cs) auto

lemma size_child_nodes [termination_simp]: "c \<in> set (child_nodes t) \<Longrightarrow> size c < size t"
  using size_less_weight[of c "child_nodes t"] weight_child_nodes[of t] by simp

fun tree_nodes :: "njson \<Rightarrow> njson list" where
  "tree_nodes t = t # concat (map tree_nodes (child_nodes t))"

declare tree_nodes.simps [simp del]

text \<open>
  A node of the compositor's tree is an object with a boolean \<open>focused\<close>; it is focused
  when that boolean is \<open>true\<close>. A tree is well formed when all its nodes are such objects.
\<close>

definition is_node :: "njson \<Rightarrow> bool" where
  "is_node n = (subscript_const n ''focused'' = Inr (JBool True)
              \<or> subscript_const n ''focused'' = Inr (JBool False))"

definition is_focused :: "njson \<Rightarrow> bool" where
  "is_focused n = (subscript_const n ''focused'' = Inr (JBool True))"

definition wf_tree :: "njson \<Rightarrow> bool" where
  "wf_tree t = list_all is_node (tree_nodes t)"

definition stack_nodes :: "njson list \<Rightarrow> njson list" where
  "stack_nodes st = concat (map tree_nodes st)"

section \<open>Reading a decimal numeral\<close>

definition nat_of_dec :: "string \<Rightarrow> nat" where
  "nat_of_dec ds = foldl (\<lambda>a c. 10 * a + (of_char c - 48)) 0 ds"

definition int_of_dec :: "string \<Rightarrow> int" where
  "int_of_dec ds =
     (case ds of
        [] \<Rightarrow> 0
      | c # cs \<Rightarrow> if c = CHR ''-'' then - int (nat_of_dec cs) else int (nat_of_dec ds))"

section \<open>Sample data\<close>

text \<open>
  A world, a stand-in for \<open>njson::parse\<close> that looks the text up in a table, the frame
  a compositor sends for a payload, and a socket on which that frame is waiting.
\<close>

definition sample_world :: world where
  "sample_world = \<lparr>effects = [], next_fd = 3, next_addr = 4096, next_proxy = 1\<rparr>"

definition parse_table :: "(string \<times> njson) list \<Rightarrow> string \<Rightarrow> error + njson" where
  "parse_table tbl text = (case map_of tbl text of None \<Rightarrow> Inl parse_error | Some j \<Rightarrow> Inr j)"

definition reply :: "u32 \<Rightarrow> string \<Rightarrow> string" where
  "reply t body = header_bytes \<lparr>magic = ipc_magic, len = of_nat (length body), type = t\<rparr> @ body"

definition sample_socket :: "string \<Rightarrow> unix_socket" where
  "sample_socket bytes = \<lparr>calls = [], inbox = bytes, alive = 8\<rparr>"

definition sample_leaf :: "bool \<Rightarrow> njson" where
  "sample_leaf b =
     JObj [(''floating_nodes'', JArr []), (''focused'', JBool b), (''nodes'', JArr []),
           (''rect'', JObj [(''height'', JNum 600), (''width'', JNum 800),
                            (''x'', JNum 10), (''y'', JNum 20)])]"

text \<open>A tree whose focused window lies below \<open>floating_nodes\<close> only, and one without focus.\<close>

definition sample_tree_floating :: njson where
  "sample_tree_floating =
     JObj [(''floating_nodes'',
              JArr [JObj [(''floating_nodes'', JArr [sample_leaf True]),
                          (''focused'', JBool False), (''nodes'', JArr [])]]),
           (''focused'', JBool False),
           (''nodes'', JArr [sample_leaf False])]"

definition sample_tree_idle :: njson where
  "sample_tree_idle =
     JObj [(''floating_nodes'', JArr [sample_leaf False]),
           (''focused'', JBool False),
           (''nodes'', JArr [sample_leaf False, sample_leaf False])]"

definition sample_leaf_text :: "bool \<Rightarrow> string" where
  \<open>sample_leaf_text b =
     ''{"floating_nodes":[],"focused":'' @ (if b then ''true'' else ''false'')
     @ '',"nodes":[],"rect":{"height":600,"width":800,"x":10,"y":20}}''\<close>

definition sample_text_floating :: string where
  \<open>sample_text_floating =
     ''{"floating_nodes":[{"floating_nodes":['' @ sample_leaf_text True
     @ ''],"focused":false,"nodes":[]}],"focused":false,"nodes":['' @ sample_leaf_text False
     @ '']}''\<close>

definition sample_text_idle :: string where
  \<open>sample_text_idle =
     ''{"floating_nodes":['' @ sample_leaf_text False @ ''],"focused":false,"nodes":[''
     @ sample_leaf_text False @ '','' @ sample_leaf_text False @ '']}''\<close>

text \<open>The answer of the compositor to a command it rejects.\<close>

definition sample_text_rejected :: string where
  \<open>sample_text_rejected = ''[{"success":false,"error":"No matching node."}]''\<close>

definition sample_rejected :: njson where
  "sample_rejected =
     JArr [JObj [(''error'', JStr ''No matching node.''), (''success'', JBool False)]]"

definition sample_parse :: "string \<Rightarrow> error + njson" where
  "sample_parse =
     parse_table [(sample_text_floating, sample_tree_floating),
                  (sample_text_idle, sample_tree_idle),
                  (sample_text_rejected, sample_rejected)]"

definition big_payload :: string where
  "big_payload = replicate 4294967296 (CHR ''x'')"

section \<open>Facts about the surface\<close>

lemma effects_fold_emit:
  "effects (fold (\<lambda>b. emit (f b)) bs w) = effects w @ map f bs"
  by (induction bs arbitrary: w) (simp_all add: emit_def)

lemma sint_mult_exact:
  fixes a b :: cint
  assumes "- 2147483648 \<le> sint a * sint b" "sint a * sint b < 2147483648"
  shows "sint (a * b) = sint a * sint b"
  using assms by (simp add: sint_word_ariths signed_take_bit_int_eq_self)

lemma pool_exact:
  fixes w h :: cint
  assumes "0 < sint w" "0 < sint h" "2 * sint h * sint w * 4 < 2 ^ 31"
  shows "sint (w * 4) = sint w * 4" "sint (h * (w * 4) * 2) = 2 * sint h * sint w * 4"
proof -
  have "1 * sint w \<le> sint h * sint w"
    using assms by (intro mult_right_mono) simp_all
  then have hw: "sint w \<le> sint h * sint w" by simp
  have b: "sint h * sint w < 268435456" using assms by simp
  have p: "0 < sint h * sint w" using assms by simp
  have w: "sint w < 268435456" using hw b by linarith
  show s: "sint (w * 4) = sint w * 4"
    using sint_mult_exact[of w 4] assms(1) w by simp
  have t: "sint (h * (w * 4)) = sint h * sint w * 4"
    using sint_mult_exact[of h "w * 4"] s p b by simp
  show "sint (h * (w * 4) * 2) = 2 * sint h * sint w * 4"
    using sint_mult_exact[of "h * (w * 4)" 2] t p b by simp
qed

lemma scast_pos:
  fixes a :: cint
  assumes "0 \<le> sint a"
  shows "unat (scast a :: size_t) = nat (sint a)"
proof -
  have "sint a < 2 ^ 31" using sint_lt[of a] by simp
  then have "sint a < 2 ^ 64" by (rule less_le_trans) simp
  then have "take_bit 64 (sint a) = sint a"
    using assms by (simp only: take_bit_int_eq_self)
  then have "uint (word_of_int (sint a) :: size_t) = sint a"
    using uint_word_of_int_eq[of "sint a", where 'a = 64] by simp
  then have "uint (scast a :: size_t) = sint a"
    by (simp only: scast_eq)
  then show ?thesis
    using unat_eq_nat_uint[of "scast a :: size_t"] by (simp only:)
qed

lemma SwayShm_fields:
  "fst (SwayShm w h uuid wo) =
     \<lparr>shm = None, width = w, height = h, stride = w * 4, pool_size = h * (w * 4) * 2,
      shm_path = CHR ''/'' # uuid, fd = next_fd wo, pool_data = next_addr wo,
      pool = None, buffers = []\<rparr>"
  by (simp add: SwayShm_def create_shm_file_def sys_shm_open_def sys_mmap_def emit_def Let_def)

lemma SwayShm_effects:
  "effects (snd (SwayShm w h uuid wo)) =
     effects wo @ [Shm_open (CHR ''/'' # uuid), Ftruncate (next_fd wo) (sint (h * (w * 4) * 2)),
       Mmap (scast (h * (w * 4) * 2)) (next_fd wo)]"
  by (simp add: SwayShm_def create_shm_file_def sys_shm_open_def sys_mmap_def emit_def Let_def)

lemma get_data_values:
  "get_data 0 s = Some (pool_data s)" "get_data 1 s = Some (pool_data s + 1)"
  "1 < i \<Longrightarrow> get_data i s = None"
  by (simp_all add: get_data_def)

lemma destroy_effects:
  "effects (destroy s w) =
     effects w @ [Shm_unlink (shm_path s), Close (fd s)] @ map Wl_buffer_destroy (buffers s)
       @ (case pool s of None \<Rightarrow> [] | Some p \<Rightarrow> [Wl_shm_pool_destroy p])
       @ (case shm s of None \<Rightarrow> [] | Some m \<Rightarrow> [Wl_shm_destroy m])"
  by (simp add: destroy_def Let_def effects_fold_emit emit_def split: option.splits)

section \<open>Facts about the search\<close>

lemma is_node_cases:
  assumes "is_node n"
  obtains kvs b where "n = JObj kvs" "map_of kvs ''focused'' = Some (JBool b)"
  using assms by (cases n) (auto simp: is_node_def split: option.splits)

lemma set_stack_nodes_step:
  "set (stack_nodes (rev (elems fs) @ rev (elems ns) @ st)) =
     (\<Union>c \<in> set (elems ns @ elems fs). set (tree_nodes c)) \<union> set (stack_nodes st)"
  by (auto simp: stack_nodes_def)

lemma set_tree_nodes:
  "set (tree_nodes t) = insert t (\<Union>c \<in> set (child_nodes t). set (tree_nodes c))"
  by (subst tree_nodes.simps) simp

lemma set_stack_nodes_Cons:
  "set (stack_nodes (t # st)) =
     insert t (\<Union>c \<in> set (child_nodes t). set (tree_nodes c)) \<union> set (stack_nodes st)"
  using set_tree_nodes[of t] by (simp add: stack_nodes_def)

lemma loop_result:
  assumes "\<forall>n \<in> set (stack_nodes st). is_node n"
  shows "(current_window_loop st = Inr JNull \<and> (\<forall>n \<in> set (stack_nodes st). \<not> is_focused n))
       \<or> (\<exists>r. current_window_loop st = Inr r \<and> is_focused r \<and> r \<in> set (stack_nodes st))"
  using assms
proof (induction st rule: current_window_loop.induct)
  case 1
  then show ?case by (simp add: stack_nodes_def)
next
  case (2 t st)
  have "t \<in> set (stack_nodes (t # st))" by (simp add: set_stack_nodes_Cons)
  with "2.prems" have "is_node t" by blast
  then obtain kvs b where t: "t = JObj kvs" and f: "map_of kvs ''focused'' = Some (JBool b)"
    by (rule is_node_cases)
  show ?case
  proof (cases b)
    case True
    then have "current_window_loop (t # st) = Inr t" "is_focused t"
      using t f by (simp_all add: is_focused_def)
    then show ?thesis by (simp add: set_stack_nodes_Cons)
  next
    case False
    define ns where "ns = (case map_of kvs ''nodes'' of None \<Rightarrow> JNull | Some v \<Rightarrow> v)"
    define fs where "fs = (case map_of kvs ''floating_nodes'' of None \<Rightarrow> JNull | Some v \<Rightarrow> v)"
    have ch: "child_nodes t = elems ns @ elems fs"
      by (simp add: child_nodes_def t ns_def fs_def)
    have step: "current_window_loop (t # st)
                  = current_window_loop (rev (elems fs) @ rev (elems ns) @ st)"
      using t f False by (simp add: ns_def fs_def)
    have sets: "set (stack_nodes (t # st))
                  = insert t (set (stack_nodes (rev (elems fs) @ rev (elems ns) @ st)))"
      by (simp only: set_stack_nodes_Cons set_stack_nodes_step ch) auto
    have nf: "\<not> is_focused t" using t f False by (simp add: is_focused_def)
    have pre: "\<forall>n \<in> set (stack_nodes (rev (elems fs) @ rev (elems ns) @ st)). is_node n"
      using "2.prems" sets by blast
    have IH: "(current_window_loop (rev (elems fs) @ rev (elems ns) @ st) = Inr JNull
                \<and> (\<forall>n \<in> set (stack_nodes (rev (elems fs) @ rev (elems ns) @ st)). \<not> is_focused n))
       \<or> (\<exists>r. current_window_loop (rev (elems fs) @ rev (elems ns) @ st) = Inr r \<and> is_focused r
              \<and> r \<in> set (stack_nodes (rev (elems fs) @ rev (elems ns) @ st)))"
      using "2.IH"[of "JBool b" b ns fs] t f False pre by (simp add: ns_def fs_def)
    then show ?thesis
      unfolding step sets using nf by auto
  qed
qed

section \<open>Facts about frames and round trips\<close>

lemma le32_length [simp]: "length (le32 v) = 4"
  by (simp add: le32_def)

lemma bytes_sum:
  fixes n :: nat
  assumes "n < 4294967296"
  shows "n mod 256 + 256 * (n div 256 mod 256 + 256 * (n div 65536 mod 256
           + 256 * (n div 16777216 mod 256))) = n"
proof -
  have d2: "n div 65536 = n div 256 div 256" and d3: "n div 16777216 = n div 65536 div 256"
    by (simp_all add: div_mult2_eq[symmetric])
  have top: "n div 16777216 < 256"
    using assms by (simp add: less_mult_imp_div_less)
  have "n div 65536 mod 256 + 256 * (n div 16777216 mod 256) = n div 65536"
    using top by (simp add: d3)
  moreover have "n div 256 mod 256 + 256 * (n div 65536) = n div 256"
    by (simp add: d2)
  moreover have "n mod 256 + 256 * (n div 256) = n"
    by simp
  ultimately show ?thesis by (simp only:)
qed

lemma le32_value: "foldr (\<lambda>c n. of_char c + 256 * n) (le32 v) 0 = unat v"
proof -
  have "unat v < 4294967296" using unsigned_less[of v, where 'a = nat] by simp
  then show ?thesis
    using bytes_sum[of "unat v"] by (simp add: le32_def)
qed

lemma of_le32_le32 [simp]: "of_le32 (le32 v) = v"
  unfolding of_le32_def le32_value by simp

lemma header_bytes_length:
  "length (header_bytes \<lparr>magic = ipc_magic, len = l, type = t\<rparr>) = ipc_header_size"
  by (simp add: header_bytes_def ipc_header_size_def)

lemma header_roundtrip:
  "header_of_bytes (header_bytes \<lparr>magic = ipc_magic, len = l, type = t\<rparr>)
     = \<lparr>magic = ipc_magic, len = l, type = t\<rparr>"
  by (simp add: header_of_bytes_def header_bytes_def ipc_magic_def)

lemma sock_write_result:
  obtains (dead) s' where "sock_write bs s = (Inl system_error, s')"
      "calls s' = calls s @ [Write bs]" "alive s = 0"
  | (sent) s' where "sock_write bs s = (Inr (), s')"
      "calls s' = calls s @ [Write bs]" "inbox s' = inbox s" "alive s = Suc (alive s')"
proof (cases "alive s")
  case 0
  then show thesis
    using dead[of "s\<lparr>calls := calls s @ [Write bs]\<rparr>"] by (simp add: sock_write_def Let_def)
next
  case (Suc n)
  then show thesis
    using sent[of "s\<lparr>calls := calls s @ [Write bs], alive := n\<rparr>"]
    by (simp add: sock_write_def Let_def)
qed

lemma sock_read_result:
  obtains (dead) s' where "sock_read n s = (Inl system_error, s')"
      "calls s' = calls s @ [Read n]"
  | (got) s' where "sock_read n s = (Inr (take n (inbox s)), s')"
      "calls s' = calls s @ [Read n]" "inbox s' = drop n (inbox s)"
  by (cases "alive s = 0 \<or> length (inbox s) < n") (simp_all add: sock_read_def Let_def)

lemma io_bind_Inl: "m s = (Inl e, s') \<Longrightarrow> io_bind m f s = (Inl e, s')"
  by (simp add: io_bind_def)

lemma io_bind_Inr: "m s = (Inr x, s') \<Longrightarrow> io_bind m f s = f x s'"
  by (simp add: io_bind_def)

lemma ipc_message_calls:
  fixes parse ty p s
  defines "H \<equiv> header_bytes \<lparr>magic = ipc_magic, len = of_nat (length p), type = type_code ty\<rparr>"
    and "N \<equiv> unat (len (header_of_bytes (take ipc_header_size (inbox s))))"
  shows "\<exists>k\<le>4. min (Suc (alive s)) 3 \<le> k
              \<and> calls (snd (ipc_message parse ty p s))
                  = calls s @ take k [Write H, Write p, Read ipc_header_size, Read N]
              \<and> (k < 4 \<longrightarrow> fst (ipc_message parse ty p s) = Inl system_error)
              \<and> (k = 4 \<longrightarrow> fst (ipc_message parse ty p s) = Inl system_error
                    \<or> fst (ipc_message parse ty p s)
                        = parse (take N (drop ipc_header_size (inbox s))))"
proof -
  have H: "take ipc_header_size (header_bytes \<lparr>magic = ipc_magic, len = of_nat (length p), type = type_code ty\<rparr>) = H"
    unfolding H_def using header_bytes_length by simp
  let ?rest2 = "\<lambda>hb. io_bind (sock_read (unat (len (header_of_bytes hb)))) (\<lambda>buff. io_lift (parse buff))"
  let ?rest1 = "\<lambda>u::unit. io_bind (sock_read ipc_header_size) ?rest2"
  let ?rest0 = "\<lambda>u::unit. io_bind (sock_write p) ?rest1"
  have m: "ipc_message parse ty p s = io_bind (sock_write H) ?rest0 s"
    by (simp add: ipc_message_def H Let_def)
  show ?thesis
  proof (cases rule: sock_write_result[of H s])
    case (dead s1)
    then have "ipc_message parse ty p s = (Inl system_error, s1)"
      by (simp add: m io_bind_Inl)
    then show ?thesis using dead by (intro exI[of _ 1]) simp
  next
    case (sent s1)
    then have m1: "ipc_message parse ty p s = io_bind (sock_write p) ?rest1 s1"
      by (simp add: m io_bind_Inr)
    show ?thesis
    proof (cases rule: sock_write_result[of p s1])
      case (dead s2)
      then have "ipc_message parse ty p s = (Inl system_error, s2)"
        by (simp add: m1 io_bind_Inl)
      then show ?thesis using dead sent by (intro exI[of _ 2]) simp
    next
      case s2: (sent s2)
      then have m2: "ipc_message parse ty p s = io_bind (sock_read ipc_header_size) ?rest2 s2"
        by (simp add: m1 io_bind_Inr)
      show ?thesis
      proof (cases rule: sock_read_result[of ipc_header_size s2])
        case (dead s3)
        then have "ipc_message parse ty p s = (Inl system_error, s3)"
          by (simp add: m2 io_bind_Inl)
        then show ?thesis using dead sent s2 by (intro exI[of _ 3]) simp
      next
        case (got s3)
        have ib: "inbox s2 = inbox s" using sent s2 by simp
        have m3: "ipc_message parse ty p s
                    = io_bind (sock_read N) (\<lambda>buff. io_lift (parse buff)) s3"
          using got(1) by (simp add: m2 io_bind_Inr N_def ib)
        show ?thesis
        proof (cases rule: sock_read_result[of N s3])
          case (dead s4)
          then have "ipc_message parse ty p s = (Inl system_error, s4)"
            by (simp add: m3 io_bind_Inl)
          then show ?thesis using dead got sent s2 by (intro exI[of _ 4]) simp
        next
          case g4: (got s4)
          then have "ipc_message parse ty p s
                       = (parse (take N (drop ipc_header_size (inbox s))), s4)"
            using got(3) ib by (simp add: m3 io_bind_Inr io_lift_def)
          then show ?thesis using g4 got sent s2 by (intro exI[of _ 4]) simp
        qed
      qed
    qed
  qed
qed

lemma ipc_message_success:
  assumes "ipc_message parse ty p s = (Inr j, s')"
  shows "calls s' = calls s @
           [Write (header_bytes \<lparr>magic = ipc_magic, len = of_nat (length p), type = type_code ty\<rparr>),
            Write p, Read ipc_header_size,
            Read (unat (len (header_of_bytes (take ipc_header_size (inbox s)))))]"
proof -
  obtain k where k: "k \<le> 4"
     "calls (snd (ipc_message parse ty p s)) = calls s @ take k
           [Write (header_bytes \<lparr>magic = ipc_magic, len = of_nat (length p), type = type_code ty\<rparr>),
            Write p, Read ipc_header_size,
            Read (unat (len (header_of_bytes (take ipc_header_size (inbox s)))))]"
     "k < 4 \<longrightarrow> fst (ipc_message parse ty p s) = Inl system_error"
    using ipc_message_calls[where parse = parse and ty = ty and p = p and s = s] by auto
  from k(3) assms have "\<not> k < 4" by auto
  with k(1) have "k = 4" by simp
  with k(2) assms show ?thesis by simp
qed

lemma unat_of_nat_u32: "n < 2 ^ 32 \<Longrightarrow> unat (of_nat n :: u32) = n"
  by (simp add: unat_of_nat)

lemma ipc_message_round_trip:
  assumes "4 \<le> alive s" "length body < 2 ^ 32"
    and "inbox s = header_bytes \<lparr>magic = ipc_magic, len = of_nat (length body), type = t\<rparr> @ body @ rest"
  shows "ipc_message parse ty p s =
           (parse body,
            s\<lparr>calls := calls s @
                 [Write (header_bytes \<lparr>magic = ipc_magic, len = of_nat (length p), type = type_code ty\<rparr>),
                  Write p, Read ipc_header_size, Read (length body)],
              alive := alive s - 4, inbox := rest\<rparr>)"
proof -
  let ?h = "header_bytes \<lparr>magic = ipc_magic, len = of_nat (length body), type = t\<rparr>"
  have hl: "length ?h = ipc_header_size" by (rule header_bytes_length)
  have tk: "take ipc_header_size (inbox s) = ?h" using assms(3) hl by simp
  have n: "unat (len (header_of_bytes ?h)) = length body"
    using assms(2) by (simp add: header_roundtrip unat_of_nat_u32)
  have dr: "drop ipc_header_size (inbox s) = body @ rest" using assms(3) hl by simp
  have al: "alive s \<noteq> 0" "alive s - 1 \<noteq> 0" "alive s - 1 - 1 \<noteq> 0" "alive s - 1 - 1 - 1 \<noteq> 0"
    using assms(1) by simp_all
  have ln: "ipc_header_size \<le> length (inbox s)" using assms(3) hl by simp
  show ?thesis
    using al ln
    by (simp add: ipc_message_def Let_def io_bind_def io_lift_def sock_write_def sock_read_def
        header_bytes_length tk n dr eval_nat_numeral)
qed

section \<open>Facts about the sample data\<close>

lemma sample_nodes_floating:
  "tree_nodes sample_tree_floating =
     [sample_tree_floating, sample_leaf False,
      JObj [(''floating_nodes'', JArr [sample_leaf True]),
            (''focused'', JBool False), (''nodes'', JArr [])],
      sample_leaf True]"
  by (simp add: tree_nodes.simps child_nodes_def sample_tree_floating_def sample_leaf_def)

lemma sample_nodes_idle:
  "tree_nodes sample_tree_idle =
     [sample_tree_idle, sample_leaf False, sample_leaf False, sample_leaf False]"
  by (simp add: tree_nodes.simps child_nodes_def sample_tree_idle_def sample_leaf_def)

lemma sample_wf: "wf_tree sample_tree_floating" "wf_tree sample_tree_idle"
  unfolding wf_tree_def sample_nodes_floating sample_nodes_idle
  by (simp_all add: is_node_def sample_tree_floating_def sample_tree_idle_def sample_leaf_def)

lemma sample_focus:
  "filter is_focused (tree_nodes sample_tree_floating) = [sample_leaf True]"
  "filter is_focused (tree_nodes sample_tree_idle) = []"
  unfolding sample_nodes_floating sample_nodes_idle
  by (simp_all add: is_focused_def sample_tree_floating_def sample_tree_idle_def sample_leaf_def)

lemma sample_text_length:
  "length sample_text_floating < 2 ^ 32" "length sample_text_idle < 2 ^ 32"
  "length sample_text_rejected < 2 ^ 32"
  by (simp_all add: sample_text_floating_def sample_text_idle_def sample_text_rejected_def
      sample_leaf_text_def)

lemma sample_text_distinct:
  "sample_text_floating \<noteq> sample_text_idle" "sample_text_floating \<noteq> sample_text_rejected"
  "sample_text_idle \<noteq> sample_text_rejected"
  by (simp_all add: sample_text_floating_def sample_text_idle_def sample_text_rejected_def
      sample_leaf_text_def)

lemma sample_parse_simps:
  "sample_parse sample_text_floating = Inr sample_tree_floating"
  "sample_parse sample_text_idle = Inr sample_tree_idle"
  "sample_parse sample_text_rejected = Inr sample_rejected"
  using sample_text_distinct by (auto simp add: sample_parse_def parse_table_def)

lemma sample_round_trip:
  assumes "length body < 2 ^ 32"
  shows "ipc_message parse ty p (sample_socket (reply t body @ rest)) =
           (parse body,
            \<lparr>calls = [Write (header_bytes \<lparr>magic = ipc_magic, len = of_nat (length p),
                                            type = type_code ty\<rparr>),
                       Write p, Read ipc_header_size, Read (length body)],
             inbox = rest, alive = 4\<rparr>)"
  using ipc_message_round_trip[of "sample_socket (reply t body @ rest)" body t rest parse ty p]
    assms
  by (simp add: sample_socket_def reply_def)

lemma current_window_search:
  assumes "ipc_message parse IPC_GET_TREE [] s = (Inr tree, s')" and "wf_tree tree"
  shows "(current_window parse s = (Inr JNull, s')
            \<and> (\<forall>n \<in> set (tree_nodes tree). \<not> is_focused n))
       \<or> (\<exists>r. current_window parse s = (Inr r, s') \<and> is_focused r
              \<and> r \<in> set (tree_nodes tree))"
proof -
  have sn: "stack_nodes [tree] = tree_nodes tree" by (simp add: stack_nodes_def)
  have cw: "current_window parse s = (current_window_loop [tree], s')"
    using assms(1) by (simp add: current_window_def io_bind_def io_lift_def)
  have "\<forall>n \<in> set (stack_nodes [tree]). is_node n"
    using assms(2) by (simp add: wf_tree_def sn list_all_iff)
  from loop_result[OF this] show ?thesis
    unfolding sn cw by auto
qed

lemma sample_loop_idle: "current_window_loop [sample_tree_idle] = Inr JNull"
  by (simp add: sample_tree_idle_def sample_leaf_def)

lemma sample_window:
  "fst (get_window_info sample_parse (sample_socket (reply 4 sample_text_floating)))
     = Inr \<lparr>win_width = 800, win_height = 600, win_x = 10, win_y = 20\<rparr>"
  using sample_round_trip[OF sample_text_length(1), of sample_parse IPC_GET_TREE "[]" 4 "[]"]
  by (simp add: get_window_info_def current_window_def io_bind_def io_lift_def window_of_def
      try_bind_def sample_parse_simps sample_tree_floating_def sample_leaf_def)

section \<open>Facts about decimal numerals\<close>

lemma of_char_digit: "d < 10 \<Longrightarrow> (of_char (char_of (48 + d :: nat)) :: nat) = 48 + d"
  by simp

lemma nat_of_dec_snoc: "nat_of_dec (ds @ [c]) = 10 * nat_of_dec ds + (of_char c - 48)"
  by (simp add: nat_of_dec_def)

lemma nat_of_dec_dec_nat: "nat_of_dec (dec_nat n) = n"
proof (induction n rule: dec_nat.induct)
  case (1 n)
  show ?case
  proof (cases "n < 10")
    case True
    then show ?thesis
      by (subst dec_nat.simps) (simp add: nat_of_dec_def)
  next
    case False
    have "n mod 10 < 10" by simp
    then have d: "(of_char (char_of (48 + n mod 10)) :: nat) = 48 + n mod 10"
      by (rule of_char_digit)
    show ?thesis
      using False "1.IH" by (subst dec_nat.simps) (simp add: nat_of_dec_snoc d)
  qed
qed

lemma digit_not_minus: "d < 10 \<Longrightarrow> char_of (48 + d :: nat) \<noteq> CHR ''-''"
proof
  assume "d < 10" and "char_of (48 + d) = CHR ''-''"
  then have "(of_char (char_of (48 + d)) :: nat) = of_char CHR ''-''" by simp
  with \<open>d < 10\<close> show False by simp
qed

lemma dec_nat_no_minus: "CHR ''-'' \<notin> set (dec_nat n)"
proof (induction n rule: dec_nat.induct)
  case (1 n)
  show ?case
  proof (cases "n < 10")
    case True
    then show ?thesis
      using digit_not_minus[of n] by (subst dec_nat.simps) auto
  next
    case False
    have "n mod 10 < 10" by simp
    then show ?thesis
      using False "1.IH" digit_not_minus[of "n mod 10"] by (subst dec_nat.simps) auto
  qed
qed

lemma dec_nat_not_Nil: "dec_nat n \<noteq> []"
  by (subst dec_nat.simps) simp

lemma int_of_dec_fmt_int: "int_of_dec (fmt_int i) = i"
proof (cases "i < 0")
  case True
  then show ?thesis
    by (simp add: int_of_dec_def fmt_int_def nat_of_dec_dec_nat)
next
  case False
  obtain c cs where d: "dec_nat (nat i) = c # cs"
    using dec_nat_not_Nil[of "nat i"] by (cases "dec_nat (nat i)") auto
  then have "c \<noteq> CHR ''-''"
    using dec_nat_no_minus[of "nat i"] by auto
  then have "int_of_dec (dec_nat (nat i)) = int (nat_of_dec (dec_nat (nat i)))"
    using d by (simp add: int_of_dec_def)
  then show ?thesis
    using False by (simp add: fmt_int_def nat_of_dec_dec_nat)
qed

lemma fmt_int_samples: "fmt_int 100 = ''100''" "fmt_int 50 = ''50''" "fmt_int (- 7) = ''-7''"
  by (simp_all add: fmt_int_def dec_nat.simps char_of_def bit_Suc_0_iff)

section \<open>Further facts about round trips\<close>

text \<open>An exception of the first round trip of \<open>initial_setup\<close> ends the call.\<close>

lemma initial_setup_first_failure:
  assumes \<open>ipc_message parse IPC_COMMAND (''no_focus [app_id="'' @ appid @ ''"]'') s = (Inl e, s1)\<close>
  shows "initial_setup parse appid s = (Inl e, s1)"
  using assms
  by (simp add: initial_setup_def disable_focus_def ipc_command_def io_bind_def)

lemma snd_bind_return: "snd (io_bind m (\<lambda>_. io_return u) s) = snd (m s)"
  by (cases "m s") (auto simp: io_bind_def io_return_def split: sum.splits)

lemma header_fields:
  fixes l t
  defines "H \<equiv> header_bytes \<lparr>magic = ipc_magic, len = l, type = t\<rparr>"
  shows "length H = 14" "take 6 H = ''i3-ipc''" "magic (header_of_bytes H) = ''i3-ipc''"
    "len (header_of_bytes H) = l" "type (header_of_bytes H) = t"
  unfolding H_def header_roundtrip
  by (simp_all add: header_bytes_def ipc_magic_def)

section \<open>The claims about the surface\<close>

text \<open>
  C6, as amended. For a width and a height above zero whose product with 8 stays below
  \<open>2 ^ 31\<close>, the constructor computes \<open>stride = width * 4\<close> and
  \<open>pool_size = height * stride * 2\<close> without overflow, truncates the shared-memory object
  to \<open>2 * height * width * 4\<close> bytes and maps a region of that many bytes.
\<close>

theorem SwayShm_sizes:
  assumes "0 < sint w" and "0 < sint h" and "2 * sint h * sint w * 4 < 2 ^ 31"
  shows "sint (stride (fst (SwayShm w h uuid wo))) = sint w * 4
       \<and> sint (pool_size (fst (SwayShm w h uuid wo)))
           = sint h * sint (stride (fst (SwayShm w h uuid wo))) * 2
       \<and> (\<exists>m. effects (snd (SwayShm w h uuid wo)) =
              effects wo @ [Shm_open (CHR ''/'' # uuid),
                            Ftruncate (next_fd wo) (2 * sint h * sint w * 4),
                            Mmap m (next_fd wo)]
            \<and> unat m = nat (2 * sint h * sint w * 4))"
proof -
  note e = pool_exact[OF assms]
  have nn: "0 \<le> sint (h * (w * 4) * 2)" using e(2) assms by simp
  have "unat (scast (h * (w * 4) * 2) :: size_t) = nat (2 * sint h * sint w * 4)"
    using scast_pos[OF nn] e(2) by simp
  then show ?thesis
    using e by (simp add: SwayShm_fields SwayShm_effects)
qed

theorem SwayShm_sizes_witness:
  "sint (stride (fst (SwayShm 800 600 ''u'' sample_world))) = 3200
   \<and> sint (pool_size (fst (SwayShm 800 600 ''u'' sample_world))) = 3840000"
  using SwayShm_sizes[of 800 600 "''u''" sample_world] by simp

text \<open>
  C6, as stated, fails: for the width \<open>2 ^ 29\<close> and the height 1, \<open>width * 4\<close> is
  \<open>2 ^ 31\<close>, which no \<open>int\<close> holds, so the stride is not \<open>width * 4\<close>.
\<close>

theorem SwayShm_sizes_counterexample:
  "0 < sint (536870912 :: cint) \<and> 0 < sint (1 :: cint)
   \<and> sint (stride (fst (SwayShm 536870912 1 ''u'' sample_world))) \<noteq> sint (536870912 :: cint) * 4"
  by (simp add: SwayShm_fields)

text \<open>
  C1 at the surface of width 2 and height 2, where a buffer has 16 bytes: for the index 1,
  \<open>get_data\<close> returns the address one byte after the start of the mapped region, not the
  address 16 bytes after it, at which \<open>allocate_pool_buffers\<close> places the second buffer.
\<close>

theorem get_data_second_buffer:
  "get_data 0 (fst (SwayShm 2 2 uuid wo)) = Some (next_addr wo)
   \<and> get_data 1 (fst (SwayShm 2 2 uuid wo)) = Some (next_addr wo + 1)
   \<and> get_data 1 (fst (SwayShm 2 2 uuid wo)) \<noteq> Some (next_addr wo + 16)
   \<and> sint (height (fst (SwayShm 2 2 uuid wo)) * stride (fst (SwayShm 2 2 uuid wo))) = 16"
  by (simp add: get_data_def SwayShm_fields)

text \<open>
  C5. The destructor unlinks the name, closes the descriptor, destroys every buffer in
  the order of \<open>buffers\<close>, then the pool if there is one, then the \<open>wl_shm\<close> if there
  is one, and does nothing else. On a surface that was constructed and never bound, the
  calls are the unlink and the close.
\<close>

theorem destroy_order:
  "effects (destroy s w) =
     effects w @ [Shm_unlink (shm_path s), Close (fd s)] @ map Wl_buffer_destroy (buffers s)
       @ (case pool s of None \<Rightarrow> [] | Some p \<Rightarrow> [Wl_shm_pool_destroy p])
       @ (case shm s of None \<Rightarrow> [] | Some m \<Rightarrow> [Wl_shm_destroy m])
   \<and> effects (destroy (fst (SwayShm wd ht uuid wo)) w) =
       effects w @ [Shm_unlink (CHR ''/'' # uuid), Close (next_fd wo)]"
proof
  show "effects (destroy s w) =
     effects w @ [Shm_unlink (shm_path s), Close (fd s)] @ map Wl_buffer_destroy (buffers s)
       @ (case pool s of None \<Rightarrow> [] | Some p \<Rightarrow> [Wl_shm_pool_destroy p])
       @ (case shm s of None \<Rightarrow> [] | Some m \<Rightarrow> [Wl_shm_destroy m])"
    by (rule destroy_effects)
next
  let ?s = "fst (SwayShm wd ht uuid wo)"
  have unbound: "buffers ?s = []" "pool ?s = None" "shm ?s = None"
    by (simp_all add: SwayShm_fields)
  have "shm_path ?s = CHR ''/'' # uuid" "fd ?s = next_fd wo"
    by (simp_all add: SwayShm_fields)
  then show "effects (destroy ?s w) =
       effects w @ [Shm_unlink (CHR ''/'' # uuid), Close (next_fd wo)]"
    using unbound by (simp add: destroy_effects)
qed

theorem destroy_order_witness:
  "effects (destroy (fst (allocate_pool_buffers
       ((fst (SwayShm 2 2 ''u'' sample_world))\<lparr>shm := Some 0\<rparr>) sample_world)) sample_world)
     = [Shm_unlink ''/u'', Close 3, Wl_buffer_destroy 2, Wl_buffer_destroy 3,
        Wl_shm_pool_destroy 1, Wl_shm_destroy 0]"
  using destroy_order[of "fst (allocate_pool_buffers
       ((fst (SwayShm 2 2 ''u'' sample_world))\<lparr>shm := Some 0\<rparr>) sample_world)" sample_world]
  by (simp add: SwayShm_fields allocate_pool_buffers_def new_proxy_def emit_def sample_world_def
      Let_def)

text \<open>
  C9. Without a \<open>wl_shm\<close>, \<open>allocate_pool_buffers\<close> returns the surface and the world as
  they were: no request is sent, no pool and no buffer is recorded.
\<close>

theorem allocate_pool_buffers_unbound:
  assumes "shm s = None"
  shows "allocate_pool_buffers s w = (s, w)"
  using assms by (simp add: allocate_pool_buffers_def)

theorem allocate_pool_buffers_unbound_witness:
  "shm (fst (SwayShm 2 2 ''u'' sample_world)) = None
   \<and> allocate_pool_buffers (fst (SwayShm 2 2 ''u'' sample_world)) (snd (SwayShm 2 2 ''u'' sample_world))
       = (fst (SwayShm 2 2 ''u'' sample_world), snd (SwayShm 2 2 ''u'' sample_world))"
  using allocate_pool_buffers_unbound[of "fst (SwayShm 2 2 ''u'' sample_world)"
      "snd (SwayShm 2 2 ''u'' sample_world)"]
  by (simp add: SwayShm_fields)

section \<open>The claims about the backend\<close>

text \<open>
  C8. When the environment has no \<open>SWAYSOCK\<close>, the constructor throws the runtime error
  \<open>SWAY NOT SUPPORTED\<close> and leaves the world as it was, whatever connecting would do:
  no socket is opened. The constructor has no loop, so nothing is tried again.
\<close>

theorem SwaySocket_unsupported:
  assumes "getenv ''SWAYSOCK'' = None"
  shows "SwaySocket getenv connect w = (Inl (runtime_error ''SWAY NOT SUPPORTED''), w)"
  using assms by (simp add: SwaySocket_def io_lift_def)

theorem SwaySocket_unsupported_witness:
  "SwaySocket Map.empty (\<lambda>path. io_return (sample_socket [])) sample_world
     = (Inl (runtime_error ''SWAY NOT SUPPORTED''), sample_world)"
  using SwaySocket_unsupported[of Map.empty "\<lambda>path. io_return (sample_socket [])" sample_world]
  by simp

section \<open>The claims about the tree query\<close>

text \<open>
  C3. When the tree that the compositor returns is well formed and exactly one of its
  nodes is focused, wherever it lies below \<open>nodes\<close> and \<open>floating_nodes\<close>,
  \<open>current_window\<close> returns that node (and with it its \<open>rect\<close>); when no node is
  focused, it returns \<open>null\<close>.
\<close>

theorem current_window_finds_focused:
  assumes "ipc_message parse IPC_GET_TREE [] s = (Inr tree, s')" and "wf_tree tree"
  shows "(filter is_focused (tree_nodes tree) = [n] \<longrightarrow> current_window parse s = (Inr n, s'))
       \<and> (filter is_focused (tree_nodes tree) = [] \<longrightarrow> current_window parse s = (Inr JNull, s'))"
proof (intro conjI impI)
  assume one: "filter is_focused (tree_nodes tree) = [n]"
  then have nf: "n \<in> set (tree_nodes tree)" "is_focused n"
    using filter_eq_ConsD[OF one] by auto
  from current_window_search[OF assms] nf
  obtain r where r: "current_window parse s = (Inr r, s')" "is_focused r"
      "r \<in> set (tree_nodes tree)"
    by auto
  then have "r \<in> set (filter is_focused (tree_nodes tree))" by simp
  then have "r = n" unfolding one by simp
  then show "current_window parse s = (Inr n, s')" using r(1) by simp
next
  assume none: "filter is_focused (tree_nodes tree) = []"
  then have "\<forall>r \<in> set (tree_nodes tree). \<not> is_focused r"
    by (simp add: filter_empty_conv)
  with current_window_search[OF assms] show "current_window parse s = (Inr JNull, s')"
    by auto
qed

theorem current_window_finds_focused_witness:
  "fst (current_window sample_parse (sample_socket (reply 4 sample_text_floating)))
     = Inr (sample_leaf True)
   \<and> fst (current_window sample_parse (sample_socket (reply 4 sample_text_idle))) = Inr JNull"
  using current_window_finds_focused[OF
      sample_round_trip[OF sample_text_length(1), of sample_parse IPC_GET_TREE "[]" 4 "[]",
        unfolded sample_parse_simps append_Nil2]
      sample_wf(1), of "sample_leaf True"]
    current_window_finds_focused[OF
      sample_round_trip[OF sample_text_length(2), of sample_parse IPC_GET_TREE "[]" 4 "[]",
        unfolded sample_parse_simps append_Nil2]
      sample_wf(2), of JNull]
  by (simp add: sample_focus)

text \<open>
  C2, as amended. When the tree that the compositor returns is well formed and none of
  its nodes is focused, \<open>get_window_info\<close> throws the JSON library's type error 305:
  \<open>current_window\<close> returns \<open>null\<close>, to which \<open>operator[]\<close> with the key \<open>rect\<close> does
  not apply. The exception is propagated to the caller.
\<close>

theorem get_window_info_no_focus:
  assumes "ipc_message parse IPC_GET_TREE [] s = (Inr tree, s')" and "wf_tree tree"
    and "filter is_focused (tree_nodes tree) = []"
  shows "get_window_info parse s = (Inl (type_error 305), s')"
proof -
  have "\<forall>r \<in> set (tree_nodes tree). \<not> is_focused r"
    using assms(3) by (simp add: filter_empty_conv)
  with current_window_search[OF assms(1,2)] have "current_window parse s = (Inr JNull, s')"
    by auto
  then show ?thesis
    by (simp add: get_window_info_def io_bind_def io_lift_def window_of_def try_bind_def)
qed

theorem get_window_info_no_focus_witness:
  "fst (get_window_info sample_parse (sample_socket (reply 4 sample_text_idle)))
     = Inl (type_error 305)"
  using get_window_info_no_focus[OF
      sample_round_trip[OF sample_text_length(2), of sample_parse IPC_GET_TREE "[]" 4 "[]",
        unfolded sample_parse_simps append_Nil2]
      sample_wf(2) sample_focus(2)]
  by simp

text \<open>
  C2, as stated, fails: on the sample tree without focus the exception is the type error
  305 of the JSON library, which does not name the missing focused window.
\<close>

theorem get_window_info_no_focus_counterexample:
  "fst (get_window_info sample_parse (sample_socket (reply 4 sample_text_idle)))
     = Inl (type_error 305)
   \<and> fst (get_window_info sample_parse (sample_socket (reply 4 sample_text_idle)))
     \<noteq> Inl (runtime_error ''no focused window'')"
  using sample_round_trip[OF sample_text_length(2), of sample_parse IPC_GET_TREE "[]" 4 "[]"]
  by (simp add: get_window_info_def current_window_def io_bind_def io_lift_def window_of_def
      try_bind_def sample_parse_simps sample_loop_idle del: current_window_loop.simps)

section \<open>The claims about frames and commands\<close>

text \<open>
  C4, as amended. For a payload of fewer than \<open>2 ^ 32\<close> bytes, the header that
  \<open>ipc_message\<close> writes has 14 bytes, starts with the six bytes \<open>i3-ipc\<close> and carries the
  length of the payload and the code of the message type. The calls on the socket are,
  in this order, the write of the header, the write of the payload, the read of 14
  bytes and the read of as many bytes as the header just read announces; the sequence
  stops early only at a call that fails, so no read is attempted before both writes
  are done.
\<close>

theorem ipc_message_framing:
  fixes p :: string and ty :: ipc_message_type
  defines "H \<equiv> header_bytes \<lparr>magic = ipc_magic, len = of_nat (length p), type = type_code ty\<rparr>"
  assumes "length p < 2 ^ 32"
  shows "(\<exists>k\<le>4. min (Suc (alive s)) 3 \<le> k
            \<and> calls (snd (ipc_message parse ty p s)) =
                calls s @ take k [Write H, Write p, Read ipc_header_size,
                  Read (unat (len (header_of_bytes (take ipc_header_size (inbox s)))))]
            \<and> (k < 4 \<longrightarrow> fst (ipc_message parse ty p s) = Inl system_error))
       \<and> ipc_header_size = 14 \<and> length H = 14 \<and> take 6 H = ''i3-ipc''
       \<and> magic (header_of_bytes H) = ''i3-ipc''
       \<and> unat (len (header_of_bytes H)) = length p
       \<and> type (header_of_bytes H) = type_code ty"
proof -
  have "\<exists>k\<le>4. min (Suc (alive s)) 3 \<le> k
            \<and> calls (snd (ipc_message parse ty p s)) =
                calls s @ take k [Write H, Write p, Read ipc_header_size,
                  Read (unat (len (header_of_bytes (take ipc_header_size (inbox s)))))]
            \<and> (k < 4 \<longrightarrow> fst (ipc_message parse ty p s) = Inl system_error)"
    using ipc_message_calls[where parse = parse and ty = ty and p = p and s = s]
    unfolding H_def by blast
  moreover have "ipc_header_size = 14" by (simp add: ipc_header_size_def ipc_magic_def)
  moreover have "unat (len (header_of_bytes H)) = length p"
    unfolding H_def header_fields using assms(2) by (rule unat_of_nat_u32)
  ultimately show ?thesis
    unfolding H_def header_fields by blast
qed

theorem ipc_message_framing_witness:
  "calls (snd (ipc_message sample_parse IPC_GET_TREE [] (sample_socket (reply 4 sample_text_idle))))
     = [Write (header_bytes \<lparr>magic = ipc_magic, len = 0, type = 4\<rparr>), Write [], Read 14,
        Read (length sample_text_idle)]
   \<and> unat (len (header_of_bytes (header_bytes \<lparr>magic = ipc_magic, len = 0, type = 4\<rparr>))) = 0"
  using ipc_message_framing[where p = "[]" and parse = sample_parse and ty = IPC_GET_TREE
      and s = "sample_socket (reply 4 sample_text_idle)"]
    sample_round_trip[OF sample_text_length(2), of sample_parse IPC_GET_TREE "[]" 4 "[]"]
  by simp

text \<open>
  C4, as stated, fails: for a payload of \<open>2 ^ 32\<close> bytes the length field of the header
  written is 0.
\<close>

theorem ipc_message_framing_counterexample:
  "calls (snd (ipc_message sample_parse IPC_COMMAND big_payload (sample_socket [])))
     = [Write (header_bytes \<lparr>magic = ipc_magic, len = 0, type = 0\<rparr>), Write big_payload,
        Read 14]
   \<and> unat (len (header_of_bytes (header_bytes \<lparr>magic = ipc_magic, len = 0, type = 0\<rparr>)))
       \<noteq> length big_payload"
proof -
  have l: "length big_payload = 4294967296" by (simp add: big_payload_def)
  have z: "(of_nat (length big_payload) :: u32) = 0" unfolding l by simp
  have hs: "ipc_header_size = 14" by (simp add: ipc_header_size_def ipc_magic_def)
  then have pos: "0 < ipc_header_size" by simp
  have "calls (snd (ipc_message sample_parse IPC_COMMAND big_payload (sample_socket [])))
     = [Write (header_bytes \<lparr>magic = ipc_magic, len = 0, type = 0\<rparr>), Write big_payload,
        Read ipc_header_size]"
    using pos
    by (simp add: ipc_message_def z Let_def io_bind_def sock_write_def sock_read_def
        sample_socket_def header_bytes_length)
  then show ?thesis
    using l by (simp add: hs header_roundtrip)
qed

text \<open>
  C7. \<open>move_window\<close> makes one round trip of type \<open>IPC_COMMAND\<close>. Its payload is the
  clause \<open>[app_id="appid"]\<close> behind \<open>for_window\<close>, followed by
  \<open>move absolute position\<close> and the two coordinates as decimal numerals; the payload
  contains the clause and both numerals, and each numeral reads back as its coordinate.
\<close>

theorem move_window_command:
  fixes appid :: string and xcoord ycoord :: cint
  defines \<open>cmd \<equiv> ''for_window [app_id="'' @ appid @ ''"] move absolute position ''
                  @ fmt_int (sint xcoord) @ '' '' @ fmt_int (sint ycoord)\<close>
  shows \<open>(\<exists>k\<le>4. min (Suc (alive s)) 3 \<le> k
            \<and> calls (snd (move_window parse appid xcoord ycoord s)) =
                calls s @ take k
                  [Write (header_bytes \<lparr>magic = ipc_magic, len = of_nat (length cmd),
                                          type = type_code IPC_COMMAND\<rparr>),
                   Write cmd, Read ipc_header_size,
                   Read (unat (len (header_of_bytes (take ipc_header_size (inbox s)))))])
       \<and> sublist (''[app_id="'' @ appid @ ''"]'') cmd
       \<and> sublist (fmt_int (sint xcoord)) cmd
       \<and> sublist (fmt_int (sint ycoord)) cmd
       \<and> int_of_dec (fmt_int (sint xcoord)) = sint xcoord
       \<and> int_of_dec (fmt_int (sint ycoord)) = sint ycoord\<close>
proof -
  have mv: "snd (move_window parse appid xcoord ycoord s)
              = snd (ipc_message parse IPC_COMMAND cmd s)"
    by (simp add: move_window_def ipc_command_for_def snd_bind_return cmd_def)
  have a: \<open>cmd = ''for_window '' @ (''[app_id="'' @ appid @ ''"]'')
                  @ ('' move absolute position '' @ fmt_int (sint xcoord) @ '' ''
                     @ fmt_int (sint ycoord))\<close>
    by (simp add: cmd_def)
  have b: \<open>cmd = (''for_window [app_id="'' @ appid @ ''"] move absolute position '')
                  @ fmt_int (sint xcoord) @ ('' '' @ fmt_int (sint ycoord))\<close>
    by (simp add: cmd_def)
  have c: \<open>cmd = (''for_window [app_id="'' @ appid @ ''"] move absolute position ''
                   @ fmt_int (sint xcoord) @ '' '') @ fmt_int (sint ycoord) @ []\<close>
    by (simp add: cmd_def)
  have \<open>sublist (''[app_id="'' @ appid @ ''"]'') cmd\<close>
    by (subst a) (rule sublist_appendI)
  moreover have "sublist (fmt_int (sint xcoord)) cmd"
    by (subst b) (rule sublist_appendI)
  moreover have "sublist (fmt_int (sint ycoord)) cmd"
    by (subst c) (rule sublist_appendI)
  moreover have "\<exists>k\<le>4. min (Suc (alive s)) 3 \<le> k
            \<and> calls (snd (move_window parse appid xcoord ycoord s)) =
                calls s @ take k
                  [Write (header_bytes \<lparr>magic = ipc_magic, len = of_nat (length cmd),
                                          type = type_code IPC_COMMAND\<rparr>),
                   Write cmd, Read ipc_header_size,
                   Read (unat (len (header_of_bytes (take ipc_header_size (inbox s)))))]"
    unfolding mv
    using ipc_message_calls[where parse = parse and ty = IPC_COMMAND and p = cmd and s = s]
    by blast
  ultimately show ?thesis
    unfolding cmd_def by (simp only: int_of_dec_fmt_int simp_thms)
qed

theorem move_window_command_witness:
  \<open>sublist ''[app_id="term-1"]'' ''for_window [app_id="term-1"] move absolute position 100 50''
   \<and> sublist ''100'' ''for_window [app_id="term-1"] move absolute position 100 50''
   \<and> sublist ''50'' ''for_window [app_id="term-1"] move absolute position 100 50''\<close>
  using move_window_command[where appid = "''term-1''" and xcoord = 100 and ycoord = 50
      and parse = sample_parse and s = "sample_socket []"]
  by (simp add: fmt_int_samples)

text \<open>
  C10. When both round trips complete, \<open>initial_setup\<close> returns normally whatever
  documents the compositor answered, and the calls on the socket are those of two
  round trips of type \<open>IPC_COMMAND\<close>: first with the payload
  \<open>no_focus [app_id="appid"]\<close>, then with the payload
  \<open>for_window [app_id="appid"] floating enable\<close>.
\<close>

theorem initial_setup_commands:
  fixes appid :: string
  defines \<open>c1 \<equiv> ''no_focus [app_id="'' @ appid @ ''"]''\<close>
    and \<open>c2 \<equiv> ''for_window [app_id="'' @ appid @ ''"] floating enable''\<close>
  assumes "ipc_message parse IPC_COMMAND c1 s = (Inr j1, s1)"
    and "ipc_message parse IPC_COMMAND c2 s1 = (Inr j2, s2)"
  shows "initial_setup parse appid s = (Inr (), s2)
       \<and> calls s2 = calls s @
           [Write (header_bytes \<lparr>magic = ipc_magic, len = of_nat (length c1),
                                   type = type_code IPC_COMMAND\<rparr>),
            Write c1, Read ipc_header_size,
            Read (unat (len (header_of_bytes (take ipc_header_size (inbox s))))),
            Write (header_bytes \<lparr>magic = ipc_magic, len = of_nat (length c2),
                                   type = type_code IPC_COMMAND\<rparr>),
            Write c2, Read ipc_header_size,
            Read (unat (len (header_of_bytes (take ipc_header_size (inbox s1)))))]"
proof -
  have "initial_setup parse appid s = (Inr (), s2)"
    using assms(3,4)
    by (simp add: initial_setup_def disable_focus_def enable_floating_def ipc_command_def
        ipc_command_for_def io_bind_def io_return_def c1_def c2_def)
  moreover note ipc_message_success[OF assms(3)] ipc_message_success[OF assms(4)]
  ultimately show ?thesis by simp
qed

theorem initial_setup_commands_witness:
  \<open>initial_setup sample_parse ''term-1''
       (sample_socket (reply 0 sample_text_rejected @ reply 0 sample_text_rejected))
     = (Inr (),
        \<lparr>calls =
           [Write (header_bytes \<lparr>magic = ipc_magic, len = 26, type = 0\<rparr>),
            Write ''no_focus [app_id="term-1"]'', Read 14, Read (length sample_text_rejected),
            Write (header_bytes \<lparr>magic = ipc_magic, len = 44, type = 0\<rparr>),
            Write ''for_window [app_id="term-1"] floating enable'', Read 14,
            Read (length sample_text_rejected)],
         inbox = [], alive = 0\<rparr>)\<close>
proof -
  let ?c1 = \<open>''no_focus [app_id="'' @ ''term-1'' @ ''"]''\<close>
  let ?c2 = \<open>''for_window [app_id="'' @ ''term-1'' @ ''"] floating enable''\<close>
  let ?s1 = "\<lparr>calls = [Write (header_bytes \<lparr>magic = ipc_magic, len = of_nat (length ?c1),
                                            type = type_code IPC_COMMAND\<rparr>),
                       Write ?c1, Read ipc_header_size, Read (length sample_text_rejected)],
             inbox = reply 0 sample_text_rejected, alive = 4\<rparr>"
  let ?s2 = "?s1\<lparr>calls := calls ?s1 @
                 [Write (header_bytes \<lparr>magic = ipc_magic, len = of_nat (length ?c2),
                                         type = type_code IPC_COMMAND\<rparr>),
                  Write ?c2, Read ipc_header_size, Read (length sample_text_rejected)],
              alive := alive ?s1 - 4, inbox := []\<rparr>"
  have hs: "ipc_header_size = 14" by (simp add: ipc_header_size_def ipc_magic_def)
  have r1: "ipc_message sample_parse IPC_COMMAND ?c1
              (sample_socket (reply 0 sample_text_rejected @ reply 0 sample_text_rejected))
            = (Inr sample_rejected, ?s1)"
    using sample_round_trip[OF sample_text_length(3), of sample_parse IPC_COMMAND ?c1 0
        "reply 0 sample_text_rejected"]
    by (simp only: sample_parse_simps)
  have r2: "ipc_message sample_parse IPC_COMMAND ?c2 ?s1 = (Inr sample_rejected, ?s2)"
    using ipc_message_round_trip[of ?s1 sample_text_rejected 0 "[]" sample_parse IPC_COMMAND ?c2]
      sample_text_length(3)
    by (simp add: reply_def sample_parse_simps)
  show ?thesis
    using initial_setup_commands[OF r1 r2, THEN conjunct1] by (simp add: hs)
qed

end
